theory Spec2Isabelle
  imports Main "HOL-Library.Sublist"
begin

section \<open>Values, callbacks and result sets\<close>

text \<open>
  The repository emulates the WebSQL interface twice: \<^verbatim>\<open>websql-sqlite3-node.js\<close> on the
  \<^verbatim>\<open>sqlite3\<close> package of Node.js (operations are queued, completions arrive later) and a
  browser variant on the synchronous \<^verbatim>\<open>oo1.DB\<close> object of SQLite's WebAssembly build.
  Both are embedded here as state-passing functions that record, in order, every call
  made on the driver and every callback fired.
\<close>

datatype val = VNull | VInt int | VText string

type_synonym row = "(string \<times> val) list"

type_synonym err = string

text \<open>
  A caller-supplied function is modelled by the calls it makes on the transaction object
  it closes over (\<^verbatim>\<open>tx.executeSql(sql, params, successCallback, errorCallback)\<close>) and by
  its other visible effects (\<open>Note\<close>). An argument that is not a function
  (\<^verbatim>\<open>typeof f !== 'function'\<close>) is \<open>None\<close>; an omitted \<^verbatim>\<open>params\<close> is \<open>None\<close> too.
  Callers' functions are taken not to throw and not to open a further transaction: one
  run is one transaction.
\<close>

datatype action =
    ExecuteSql string "val list option" "action list option" "action list option"
  | Note string

type_synonym callback = "action list option"

text \<open>The object literal \<^verbatim>\<open>{ sql, params, successCallback, errorCallback }\<close>.\<close>

record statement =
  sql :: string
  params :: "val list"
  successCallback :: callback
  errorCallback :: callback

text \<open>The default parameter \<^verbatim>\<open>params = []\<close> of \<^verbatim>\<open>executeSql\<close>.\<close>

definition params_default :: "val list option \<Rightarrow> val list" where
  "params_default p = (case p of None \<Rightarrow> [] | Some ps \<Rightarrow> ps)"

text \<open>\<^verbatim>\<open>rows[i]\<close> on a JavaScript array: \<open>None\<close> is \<^verbatim>\<open>undefined\<close>.\<close>

definition js_index :: "'a list \<Rightarrow> int \<Rightarrow> 'a option" where
  "js_index xs i = (if 0 \<le> i \<and> i < int (length xs) then Some (xs ! nat i) else None)"

text \<open>The \<^verbatim>\<open>rows\<close> object \<^verbatim>\<open>{ length, item, _array }\<close> and the result set around it.\<close>

record row_list =
  len :: nat
  item :: "int \<Rightarrow> row option"
  array :: "row list"

record result_set =
  rowsAffected :: int
  insertId :: "int option"
  rows :: row_list

text \<open>
  \<^verbatim>\<open>this\<close> inside the completion function of \<^verbatim>\<open>db.all\<close>: the driver's statement object, whose
  \<^verbatim>\<open>changes\<close> and \<^verbatim>\<open>lastID\<close> may be absent (\<^verbatim>\<open>undefined\<close>).
\<close>

record stmt_this =
  changes :: "int option"
  lastID :: "int option"

text \<open>\<^verbatim>\<open>this.changes || 0\<close> and \<^verbatim>\<open>this.lastID || null\<close>: zero and \<^verbatim>\<open>undefined\<close> are falsy.\<close>

definition or_zero :: "int option \<Rightarrow> int" where
  "or_zero x = (case x of None \<Rightarrow> 0 | Some c \<Rightarrow> if c = 0 then 0 else c)"

definition or_null :: "int option \<Rightarrow> int option" where
  "or_null x = (case x of None \<Rightarrow> None | Some l \<Rightarrow> if l = 0 then None else Some l)"

definition rows_object :: "row list \<Rightarrow> row_list" where
  "rows_object rs = \<lparr>len = length rs, item = (\<lambda>i. js_index rs i), array = rs\<rparr>"

definition result_node :: "stmt_this \<Rightarrow> row list \<Rightarrow> result_set" where
  "result_node this rs =
     \<lparr>rowsAffected = or_zero (changes this), insertId = or_null (lastID this),
      rows = rows_object rs\<rparr>"

section \<open>Observable events\<close>

datatype call =
    DbRun string
  | DbAll string "val list"
  | DbExec string "val list"

text \<open>
  The first argument written for a statement's success callback: the driver's statement
  object (\<^verbatim>\<open>this\<close> of the completion function) in the queued variant, the transaction
  object (\<^verbatim>\<open>this\<close> of \<^verbatim>\<open>executeSql\<close>) in the synchronous one.
\<close>

datatype receiver = StatementObj stmt_this | TransactionObj

datatype event =
    Dispatch call
  | Resolved string "val list" "err + row list"
  | StmtSuccess receiver result_set
  | StmtError err
  | TxSuccess
  | TxError err
  | BuilderReturn
  | Noted string

section \<open>The queued variant (Node.js)\<close>

text \<open>
  The \<^verbatim>\<open>sqlite3\<close> package is not part of the repository. Its boundary is a parameter: a
  function that, for a connection state, an SQL text and bind values, gives the outcome
  (error or rows), the statement object handed to the completion function as \<^verbatim>\<open>this\<close>,
  and the next connection state. \<^verbatim>\<open>db.run\<close> and \<^verbatim>\<open>db.all\<close> only append to the connection's
  queue; the package completes queued operations one at a time, in submission order, on
  later turns of the event loop, never inside the submitting call.
\<close>

type_synonym 'c queued_driver =
  "'c \<Rightarrow> string \<Rightarrow> val list \<Rightarrow> (err + row list) \<times> stmt_this \<times> 'c"

datatype op = RunOp string | AllOp statement

record 'c node_state =
  conn :: 'c
  statements :: "statement list"
  errorOccurred :: bool
  pending :: "op list"
  trace :: "event list"

definition emit :: "event \<Rightarrow> 'c node_state \<Rightarrow> 'c node_state" where
  "emit ev st = st\<lparr>trace := trace st @ [ev]\<rparr>"

text \<open>\<^verbatim>\<open>statements.push({ sql, params, successCallback, errorCallback })\<close>.\<close>

definition executeSql_node ::
  "string \<Rightarrow> val list option \<Rightarrow> callback \<Rightarrow> callback \<Rightarrow> 'c node_state \<Rightarrow> 'c node_state" where
  "executeSql_node s p sc ec st =
     st\<lparr>statements := statements st @
        [\<lparr>sql = s, params = params_default p, successCallback = sc, errorCallback = ec\<rparr>]\<rparr>"

fun act_node :: "action \<Rightarrow> 'c node_state \<Rightarrow> 'c node_state" where
  "act_node (ExecuteSql s p sc ec) st = executeSql_node s p sc ec st"
| "act_node (Note n) st = emit (Noted n) st"

definition call_node :: "action list \<Rightarrow> 'c node_state \<Rightarrow> 'c node_state" where
  "call_node f st = fold act_node f st"

definition db_run :: "string \<Rightarrow> 'c node_state \<Rightarrow> 'c node_state" where
  "db_run q st = emit (Dispatch (DbRun q)) (st\<lparr>pending := pending st @ [RunOp q]\<rparr>)"

definition db_all :: "statement \<Rightarrow> 'c node_state \<Rightarrow> 'c node_state" where
  "db_all s st =
     emit (Dispatch (DbAll (sql s) (params s))) (st\<lparr>pending := pending st @ [AllOp s]\<rparr>)"

text \<open>The body of \<^verbatim>\<open>statements.forEach\<close>.\<close>

definition forEach_body :: "statement \<Rightarrow> 'c node_state \<Rightarrow> 'c node_state" where
  "forEach_body s st = (if errorOccurred st then st else db_all s st)"

text \<open>The function given to \<^verbatim>\<open>process.nextTick\<close> by the \<^verbatim>\<open>Transaction\<close> constructor.\<close>

definition tick :: "bool \<Rightarrow> callback \<Rightarrow> 'c node_state \<Rightarrow> 'c node_state" where
  "tick readOnly successCb st =
     (let st1 = (if \<not> readOnly then db_run ''BEGIN TRANSACTION;'' st else st);
          st2 = st1\<lparr>errorOccurred := False\<rparr>;
          st3 = fold forEach_body (statements st2) st2;
          st4 = (if \<not> readOnly \<and> \<not> errorOccurred st3 then db_run ''COMMIT;'' st3 else st3)
      in (case successCb of
            Some f \<Rightarrow> if \<not> errorOccurred st4 then call_node f (emit TxSuccess st4) else st4
          | None \<Rightarrow> st4))"

text \<open>
  The driver completes one queued operation. \<^verbatim>\<open>db.run\<close> was given no completion function;
  \<^verbatim>\<open>db.all\<close> was given the \<^verbatim>\<open>function (err, rows)\<close> of the source.
\<close>

fun complete :: "'c queued_driver \<Rightarrow> op \<Rightarrow> 'c node_state \<Rightarrow> 'c node_state" where
  "complete drv (RunOp q) st = (case drv (conn st) q [] of (_, _, c') \<Rightarrow> st\<lparr>conn := c'\<rparr>)"
| "complete drv (AllOp s) st =
     (case drv (conn st) (sql s) (params s) of (res, this, c') \<Rightarrow>
        (let st1 = emit (Resolved (sql s) (params s) res) (st\<lparr>conn := c'\<rparr>) in
         (case res of
            Inl e \<Rightarrow>
              (let st2 = st1\<lparr>errorOccurred := True\<rparr> in
               (case errorCallback s of
                  Some f \<Rightarrow> call_node f (emit (StmtError e) st2)
                | None \<Rightarrow> st2))
          | Inr rs \<Rightarrow>
              (case successCallback s of
                 Some f \<Rightarrow>
                   call_node f
                     (emit (StmtSuccess (StatementObj this) (result_node this rs)) st1)
               | None \<Rightarrow> st1))))"

text \<open>
  The event loop after the tick: the queue is emptied in submission order. No modelled
  callback submits a driver operation, so one pass over the queue is the whole run.
\<close>

definition drain :: "'c queued_driver \<Rightarrow> 'c node_state \<Rightarrow> 'c node_state" where
  "drain drv st = fold (complete drv) (pending st) (st\<lparr>pending := []\<rparr>)"

text \<open>
  \<^verbatim>\<open>new Transaction(db, readOnly, errorCallback, successCallback); callback(tx)\<close>, then the
  rest of the calling script (\<open>rest\<close>: what it still does with a transaction object it
  kept), then the tick, then the completions. The constructor never reads
  \<^verbatim>\<open>errorCallback\<close>.
\<close>

definition before_tick :: "action list \<Rightarrow> action list \<Rightarrow> 'c \<Rightarrow> 'c node_state" where
  "before_tick builder rest c =
     call_node rest
       (emit BuilderReturn
          (call_node builder
             \<lparr>conn = c, statements = [], errorOccurred = False, pending = [], trace = []\<rparr>))"

definition Transaction_node ::
  "'c queued_driver \<Rightarrow> bool \<Rightarrow> action list \<Rightarrow> callback \<Rightarrow> callback \<Rightarrow> action list \<Rightarrow> 'c
    \<Rightarrow> 'c node_state" where
  "Transaction_node drv readOnly builder errorCb successCb rest c =
     drain drv (tick readOnly successCb (before_tick builder rest c))"

definition transaction_node ::
  "'c queued_driver \<Rightarrow> action list \<Rightarrow> callback \<Rightarrow> callback \<Rightarrow> action list \<Rightarrow> 'c
    \<Rightarrow> 'c node_state" where
  "transaction_node drv builder errorCb successCb rest c =
     Transaction_node drv False builder errorCb successCb rest c"

definition readTransaction_node ::
  "'c queued_driver \<Rightarrow> action list \<Rightarrow> callback \<Rightarrow> callback \<Rightarrow> action list \<Rightarrow> 'c
    \<Rightarrow> 'c node_state" where
  "readTransaction_node drv builder errorCb successCb rest c =
     Transaction_node drv True builder errorCb successCb rest c"

section \<open>The synchronous variant (browser)\<close>

text \<open>
  The \<^verbatim>\<open>oo1.DB\<close> object that \<^verbatim>\<open>openDatabase\<close> constructs is not part of the repository
  either. \<^verbatim>\<open>db.exec\<close> returns the rows or throws, and \<^verbatim>\<open>db.changes()\<close> reads the
  connection. The object has no method \<^verbatim>\<open>lastInsertRowid\<close>: the call
  \<^verbatim>\<open>db.lastInsertRowid()\<close> in the source is a call of \<^verbatim>\<open>undefined\<close> and throws a
  \<^verbatim>\<open>TypeError\<close>.
\<close>

record 'c sync_driver =
  db_exec :: "'c \<Rightarrow> string \<Rightarrow> val list \<Rightarrow> (err + row list) \<times> 'c"
  db_changes :: "'c \<Rightarrow> int"

definition lastInsertRowid_TypeError :: err where
  "lastInsertRowid_TypeError = ''TypeError: db.lastInsertRowid is not a function''"

record 'c browser_state =
  bconn :: 'c
  btrace :: "event list"

definition bemit :: "event \<Rightarrow> 'c browser_state \<Rightarrow> 'c browser_state" where
  "bemit ev st = st\<lparr>btrace := btrace st @ [ev]\<rparr>"

text \<open>
  \<^verbatim>\<open>executeSql\<close> runs the statement at once, inside \<^verbatim>\<open>try\<close>; a callback that calls
  \<^verbatim>\<open>executeSql\<close> again nests. When the statement succeeded and \<^verbatim>\<open>successCallback\<close> is a
  function, the argument object \<^verbatim>\<open>{ rowsAffected: db.changes(), insertId:
  db.lastInsertRowid(), rows: ... }\<close> is evaluated before the callback is entered:
  \<^verbatim>\<open>db.changes()\<close> returns, \<^verbatim>\<open>db.lastInsertRowid()\<close> throws, and control passes to
  \<^verbatim>\<open>catch\<close>, which hands the \<^verbatim>\<open>TypeError\<close> to the statement's \<^verbatim>\<open>errorCallback\<close>. The
  success callback is never entered. When \<^verbatim>\<open>db.exec\<close> itself throws, \<^verbatim>\<open>catch\<close> hands
  that error to \<^verbatim>\<open>errorCallback\<close>.
\<close>

fun act_browser :: "'c sync_driver \<Rightarrow> action \<Rightarrow> 'c browser_state \<Rightarrow> 'c browser_state"
  and call_browser :: "'c sync_driver \<Rightarrow> action list \<Rightarrow> 'c browser_state \<Rightarrow> 'c browser_state"
where
  "act_browser drv (Note n) st = bemit (Noted n) st"
| "act_browser drv (ExecuteSql s p sc ec) st =
     (case db_exec drv (bconn st) s (params_default p) of (res, c') \<Rightarrow>
        (let st1 = bemit (Resolved s (params_default p) res)
                     (bemit (Dispatch (DbExec s (params_default p))) (st\<lparr>bconn := c'\<rparr>)) in
         (case res of
            Inr result \<Rightarrow>
              (case sc of
                 Some f \<Rightarrow>
                   (case ec of
                      Some g \<Rightarrow> call_browser drv g (bemit (StmtError lastInsertRowid_TypeError) st1)
                    | None \<Rightarrow> st1)
               | None \<Rightarrow> st1)
          | Inl e \<Rightarrow>
              (case ec of
                 Some g \<Rightarrow> call_browser drv g (bemit (StmtError e) st1)
               | None \<Rightarrow> st1))))"
| "call_browser drv [] st = st"
| "call_browser drv (a # as) st = call_browser drv as (act_browser drv a st)"

text \<open>
  \<^verbatim>\<open>new Transaction(db, readOnly, errorCallback, successCallback); callback(tx)\<close>. The
  constructor only defines \<^verbatim>\<open>executeSql\<close>: it reads none of \<^verbatim>\<open>readOnly\<close>,
  \<^verbatim>\<open>errorCallback\<close>, \<^verbatim>\<open>successCallback\<close>.
\<close>

definition Transaction_browser ::
  "'c sync_driver \<Rightarrow> bool \<Rightarrow> action list \<Rightarrow> callback \<Rightarrow> callback \<Rightarrow> 'c \<Rightarrow> 'c browser_state" where
  "Transaction_browser drv readOnly builder errorCb successCb c =
     bemit BuilderReturn (call_browser drv builder \<lparr>bconn = c, btrace = []\<rparr>)"

definition transaction_browser ::
  "'c sync_driver \<Rightarrow> action list \<Rightarrow> callback \<Rightarrow> callback \<Rightarrow> 'c \<Rightarrow> 'c browser_state" where
  "transaction_browser drv builder errorCb successCb c =
     Transaction_browser drv False builder errorCb successCb c"

definition readTransaction_browser ::
  "'c sync_driver \<Rightarrow> action list \<Rightarrow> callback \<Rightarrow> callback \<Rightarrow> 'c \<Rightarrow> 'c browser_state" where
  "readTransaction_browser drv builder errorCb successCb c =
     Transaction_browser drv True builder errorCb successCb c"

section \<open>Opening a database\<close>

text \<open>
  The creation callback receives the raw connection; it is modelled by what it does to
  that connection. The driver's way of opening is a parameter: the name gives a
  connection or an error.
\<close>

datatype 'c open_event =
    CreationCallback 'c
  | ReturnHandle
  | ConsoleError err

text \<open>
  Browser: \<^verbatim>\<open>new sqlite3.oo1.DB(name, 'ct')\<close> throws when the database cannot be opened,
  and then \<^verbatim>\<open>openDatabase\<close> returns nothing.
\<close>

definition openDatabase_browser ::
  "(string \<Rightarrow> err + 'c) \<Rightarrow> string \<Rightarrow> ('c \<Rightarrow> 'c) option \<Rightarrow> err + ('c \<times> 'c open_event list)" where
  "openDatabase_browser open_db name creationCallback =
     (case open_db name of
        Inl e \<Rightarrow> Inl e
      | Inr db \<Rightarrow>
          (case creationCallback of
             Some f \<Rightarrow> Inr (f db, [CreationCallback db, ReturnHandle])
           | None \<Rightarrow> Inr (db, [ReturnHandle])))"

text \<open>
  Node: \<^verbatim>\<open>new sqlite3.Database(name, (err) => ...)\<close> returns the connection object at once;
  the function given to it runs when the open has finished, after \<^verbatim>\<open>openDatabase\<close> has
  returned its handle. The result is the connection afterwards, if it opened.
\<close>

definition openDatabase_node ::
  "(string \<Rightarrow> err + 'c) \<Rightarrow> string \<Rightarrow> ('c \<Rightarrow> 'c) option \<Rightarrow> 'c option \<times> 'c open_event list" where
  "openDatabase_node open_db name creationCallback =
     (case open_db name of
        Inl e \<Rightarrow> (None, [ReturnHandle, ConsoleError e])
      | Inr db \<Rightarrow>
          (case creationCallback of
             Some f \<Rightarrow> (Some (f db), [ReturnHandle, CreationCallback db])
           | None \<Rightarrow> (Some db, [ReturnHandle])))"

section \<open>A small driver for concrete runs\<close>

text \<open>
  A connection holding one counter, the number of rows inserted so far. \<^verbatim>\<open>INSERT\<close> adds
  a row, \<^verbatim>\<open>SELECT\<close> returns the counter in one row, any other text is an SQL error.
  The statement object of \<^verbatim>\<open>db.all\<close> carries neither \<^verbatim>\<open>changes\<close> nor \<^verbatim>\<open>lastID\<close>; the
  connection's \<^verbatim>\<open>changes()\<close> keeps what the last insertion left.
\<close>

definition toy_exec :: "int \<Rightarrow> string \<Rightarrow> val list \<Rightarrow> (err + row list) \<times> int" where
  "toy_exec c q ps =
     (if q = ''INSERT'' then (Inr [], c + 1)
      else if q = ''SELECT'' then (Inr [[(''n'', VInt c)]], c)
      else if q = ''BEGIN TRANSACTION;'' \<or> q = ''COMMIT;'' then (Inr [], c)
      else (Inl ''SQLITE_ERROR'', c))"

definition toy_queued :: "int queued_driver" where
  "toy_queued c q ps =
     (case toy_exec c q ps of (res, c') \<Rightarrow> (res, \<lparr>changes = None, lastID = None\<rparr>, c'))"

definition toy_sync :: "int sync_driver" where
  "toy_sync =
     \<lparr>db_exec = toy_exec, db_changes = (\<lambda>c. if 0 < c then 1 else 0)\<rparr>"

definition toy_open :: "string \<Rightarrow> err + int" where
  "toy_open name = (if name = ''/no/such/dir/test.db'' then Inl ''SQLITE_CANTOPEN'' else Inr 0)"

section \<open>Reading a trace\<close>

text \<open>The calls made on the driver, in order.\<close>

fun calls :: "event list \<Rightarrow> call list" where
  "calls [] = []"
| "calls (Dispatch c # evs) = c # calls evs"
| "calls (ev # evs) = calls evs"

fun is_dispatch :: "event \<Rightarrow> bool" where
  "is_dispatch (Dispatch c) = True"
| "is_dispatch ev = False"

fun is_failure :: "event \<Rightarrow> bool" where
  "is_failure (Resolved s p (Inl e)) = True"
| "is_failure ev = False"

fun is_tx_error :: "event \<Rightarrow> bool" where
  "is_tx_error (TxError e) = True"
| "is_tx_error ev = False"

text \<open>The statements a function registers by its own \<^verbatim>\<open>executeSql\<close> calls.\<close>

fun registered :: "action list \<Rightarrow> statement list" where
  "registered [] = []"
| "registered (ExecuteSql s p sc ec # as) =
     \<lparr>sql = s, params = params_default p, successCallback = sc, errorCallback = ec\<rparr>
       # registered as"
| "registered (Note n # as) = registered as"

fun noted :: "action list \<Rightarrow> event list" where
  "noted [] = []"
| "noted (ExecuteSql s p sc ec # as) = noted as"
| "noted (Note n # as) = Noted n # noted as"

definition all_call :: "statement \<Rightarrow> call" where
  "all_call s = DbAll (sql s) (params s)"

fun is_creation :: "'c open_event \<Rightarrow> bool" where
  "is_creation (CreationCallback c) = True"
| "is_creation ev = False"

fun is_db_all :: "call \<Rightarrow> bool" where
  "is_db_all (DbAll q ps) = True"
| "is_db_all c = False"


text \<open>
  What each variant can put on a trace: the queued one never calls \<^verbatim>\<open>db.exec\<close> and builds
  every result set from the statement object; the synchronous one only calls
  \<^verbatim>\<open>db.exec\<close> and hands no result set to any callback.
\<close>

definition node_event :: "event \<Rightarrow> bool" where
  "node_event ev =
     (case ev of
        Dispatch c \<Rightarrow> (case c of DbExec q ps \<Rightarrow> False | _ \<Rightarrow> True)
      | StmtSuccess r rs \<Rightarrow>
          (case r of
             StatementObj this \<Rightarrow> rs = result_node this (array (rows rs))
           | TransactionObj \<Rightarrow> False)
      | TxError e \<Rightarrow> False
      | _ \<Rightarrow> True)"

definition browser_event :: "event \<Rightarrow> bool" where
  "browser_event ev =
     (case ev of
        Dispatch c \<Rightarrow> (case c of DbExec q ps \<Rightarrow> True | _ \<Rightarrow> False)
      | StmtSuccess r rs \<Rightarrow> False
      | TxError e \<Rightarrow> False
      | TxSuccess \<Rightarrow> False
      | _ \<Rightarrow> True)"

text \<open>
  Every \<^verbatim>\<open>executeSql\<close> call written in the caller's functions, at any depth, as the
  \<^verbatim>\<open>db.exec\<close> call it would make: a statement, then the statements of its success
  callback, then those of its error callback.
\<close>

fun action_calls :: "action \<Rightarrow> call list"
  and actions_calls :: "action list \<Rightarrow> call list"
where
  "action_calls (Note n) = []"
| "action_calls (ExecuteSql s p sc ec) =
     DbExec s (params_default p)
       # (case sc of Some f \<Rightarrow> actions_calls f | None \<Rightarrow> [])
       @ (case ec of Some g \<Rightarrow> actions_calls g | None \<Rightarrow> [])"
| "actions_calls [] = []"
| "actions_calls (a # as) = action_calls a @ actions_calls as"

text \<open>The part of a trace before the builder function returns.\<close>

definition before_return :: "event list \<Rightarrow> event list" where
  "before_return tr = takeWhile (\<lambda>ev. ev \<noteq> BuilderReturn) tr"

lemmas common_defs = params_default_def rows_object_def toy_exec_def

lemmas node_defs =
  transaction_node_def readTransaction_node_def Transaction_node_def before_tick_def
  call_node_def executeSql_node_def emit_def tick_def forEach_body_def db_all_def db_run_def
  drain_def result_node_def or_zero_def or_null_def toy_queued_def

lemmas browser_defs =
  transaction_browser_def readTransaction_browser_def Transaction_browser_def bemit_def
  lastInsertRowid_TypeError_def toy_sync_def

section \<open>Properties of the queued variant\<close>

lemma calls_append: "calls (xs @ ys) = calls xs @ calls ys"
  by (induction xs rule: calls.induct) simp_all

lemma calls_noted: "calls (noted f) = []"
  by (induction f rule: noted.induct) simp_all

lemma call_node_closed:
  "call_node f st = st\<lparr>statements := statements st @ registered f, trace := trace st @ noted f\<rparr>"
  unfolding call_node_def
proof (induction f arbitrary: st)
  case Nil
  show ?case by simp
next
  case (Cons a f)
  show ?case by (cases a) (simp_all add: Cons.IH executeSql_node_def emit_def)
qed

lemma fold_forEach_body:
  "\<not> errorOccurred st \<Longrightarrow>
   fold forEach_body ss st =
     st\<lparr>pending := pending st @ map AllOp ss, trace := trace st @ map (\<lambda>s. Dispatch (all_call s)) ss\<rparr>"
proof (induction ss arbitrary: st)
  case Nil
  show ?case by simp
next
  case (Cons s ss)
  have "\<not> errorOccurred (db_all s st)" using Cons.prems by (simp add: db_all_def emit_def)
  from Cons.IH [OF this] Cons.prems show ?case
    by (simp add: forEach_body_def db_all_def emit_def all_call_def)
qed

lemma calls_dispatch_map: "calls (map (\<lambda>s. Dispatch (f s)) ss) = map f ss"
  by (induction ss) simp_all

lemma calls_tick:
  "calls (trace (tick ro scb st)) =
     calls (trace st) @ (if ro then [] else [DbRun ''BEGIN TRANSACTION;'']) @ map all_call (statements st)
       @ (if ro then [] else [DbRun ''COMMIT;''])"
  by (cases scb; cases ro)
     (simp_all add: tick_def Let_def db_run_def emit_def fold_forEach_body call_node_closed
        calls_append calls_noted calls_dispatch_map)

lemma calls_call_node: "calls (trace (call_node f st)) = calls (trace st)"
  by (simp add: call_node_closed calls_append calls_noted)

lemma calls_complete: "calls (trace (complete drv op st)) = calls (trace st)"
  by (cases op)
     (auto simp: calls_call_node emit_def calls_append Let_def split: prod.splits sum.splits option.splits)

lemma calls_fold_complete: "calls (trace (fold (complete drv) ops st)) = calls (trace st)"
  by (induction ops arbitrary: st) (simp_all add: calls_complete)

lemma calls_drain: "calls (trace (drain drv st)) = calls (trace st)"
  by (simp add: drain_def calls_fold_complete)

lemma trace_before_tick: "trace (before_tick builder rest c) = noted builder @ BuilderReturn # noted rest"
  by (simp add: before_tick_def call_node_closed emit_def)

lemma statements_before_tick: "statements (before_tick builder rest c) = registered builder @ registered rest"
  by (simp add: before_tick_def call_node_closed emit_def)

lemma calls_Transaction_node:
  "calls (trace (Transaction_node drv ro builder ecb scb rest c)) =
     (if ro then [] else [DbRun ''BEGIN TRANSACTION;'']) @ map all_call (statements (before_tick builder rest c))
       @ (if ro then [] else [DbRun ''COMMIT;''])"
  by (simp add: Transaction_node_def calls_drain calls_tick trace_before_tick calls_append calls_noted)

lemma node_event_noted: "ev \<in> set (noted f) \<Longrightarrow> node_event ev"
  by (induction f rule: noted.induct) (auto simp: node_event_def)

lemma node_event_call_node:
  "\<forall>ev\<in>set (trace st). node_event ev \<Longrightarrow> \<forall>ev\<in>set (trace (call_node f st)). node_event ev"
  by (auto simp: call_node_closed node_event_noted)

lemma array_rows_result_node: "array (rows (result_node this rs)) = rs"
  by (simp add: result_node_def rows_object_def)

lemma node_event_complete:
  assumes "\<forall>ev\<in>set (trace st). node_event ev"
  shows "\<forall>ev\<in>set (trace (complete drv op st)). node_event ev"
proof (cases op)
  case (RunOp q)
  with assms show ?thesis by (simp split: prod.splits)
next
  case (AllOp s)
  obtain res this c' where d: "drv (conn st) (sql s) (params s) = (res, this, c')"
    by (cases "drv (conn st) (sql s) (params s)") auto
  show ?thesis
  proof (cases res)
    case (Inl e)
    show ?thesis
    proof (cases "errorCallback s")
      case None
      with assms AllOp d Inl show ?thesis by (simp add: emit_def node_event_def)
    next
      case (Some f)
      have "\<forall>ev\<in>set (trace (emit (StmtError e)
               ((emit (Resolved (sql s) (params s) res) (st\<lparr>conn := c'\<rparr>))\<lparr>errorOccurred := True\<rparr>))). node_event ev"
        using assms by (simp add: emit_def node_event_def)
      from node_event_call_node [OF this, of f] AllOp d Inl Some show ?thesis by simp
    qed
  next
    case (Inr rs)
    show ?thesis
    proof (cases "successCallback s")
      case None
      with assms AllOp d Inr show ?thesis by (simp add: emit_def node_event_def)
    next
      case (Some f)
      have "\<forall>ev\<in>set (trace (emit (StmtSuccess (StatementObj this) (result_node this rs))
               (emit (Resolved (sql s) (params s) res) (st\<lparr>conn := c'\<rparr>)))). node_event ev"
        using assms by (simp add: emit_def node_event_def array_rows_result_node)
      from node_event_call_node [OF this, of f] AllOp d Inr Some show ?thesis by simp
    qed
  qed
qed

lemma node_event_fold_complete:
  "\<forall>ev\<in>set (trace st). node_event ev \<Longrightarrow>
   \<forall>ev\<in>set (trace (fold (complete drv) ops st)). node_event ev"
proof (induction ops arbitrary: st)
  case Nil
  then show ?case by simp
next
  case (Cons op ops)
  from Cons.IH [OF node_event_complete [OF Cons.prems]] show ?case by simp
qed

lemma node_event_simps:
  "node_event (Dispatch (DbRun q))" "node_event (Dispatch (DbAll q ps))"
  "node_event TxSuccess" "node_event BuilderReturn" "node_event (Resolved q ps res)"
  "node_event (StmtError e)" "node_event (Noted n)"
  "node_event (StmtSuccess (StatementObj this) (result_node this rs))"
  by (simp_all add: node_event_def array_rows_result_node)

lemma node_event_tick:
  assumes "\<forall>ev\<in>set (trace st). node_event ev"
  shows "\<forall>ev\<in>set (trace (tick ro scb st)). node_event ev"
  using assms
  by (cases scb; cases ro)
     (auto simp: tick_def Let_def db_run_def emit_def fold_forEach_body call_node_closed
        node_event_noted node_event_simps all_call_def)

lemma node_event_before_tick: "\<forall>ev\<in>set (trace (before_tick builder rest c)). node_event ev"
  by (auto simp: trace_before_tick node_event_noted) (simp add: node_event_def)

lemma node_event_Transaction_node:
  "\<forall>ev\<in>set (trace (Transaction_node drv ro builder ecb scb rest c)). node_event ev"
  unfolding Transaction_node_def drain_def
  by (rule node_event_fold_complete) (simp add: node_event_tick [OF node_event_before_tick])

lemma grows_call_node:
  "\<exists>post late. trace (call_node f st) = trace st @ post \<and> statements (call_node f st) = statements st @ late"
  by (simp add: call_node_closed)

lemma grows_tick:
  "\<exists>post late. trace (tick ro scb st) = trace st @ post \<and> statements (tick ro scb st) = statements st @ late"
  by (cases scb; cases ro)
     (simp_all add: tick_def Let_def db_run_def emit_def fold_forEach_body call_node_closed)

lemma grows_complete:
  "\<exists>post late. trace (complete drv op st) = trace st @ post \<and>
     statements (complete drv op st) = statements st @ late"
proof (cases op)
  case (RunOp q)
  then show ?thesis by (simp split: prod.splits)
next
  case (AllOp s)
  then show ?thesis
    by (simp add: Let_def emit_def call_node_closed split: prod.splits sum.splits option.splits)
qed

lemma grows_fold_complete:
  "\<exists>post late. trace (fold (complete drv) ops st) = trace st @ post \<and>
     statements (fold (complete drv) ops st) = statements st @ late"
proof (induction ops arbitrary: st)
  case Nil
  show ?case by simp
next
  case (Cons op ops)
  obtain p1 l1 where a: "trace (complete drv op st) = trace st @ p1"
      "statements (complete drv op st) = statements st @ l1"
    using grows_complete [of drv op st] by blast
  obtain p2 l2 where b: "trace (fold (complete drv) ops (complete drv op st)) = trace (complete drv op st) @ p2"
      "statements (fold (complete drv) ops (complete drv op st)) = statements (complete drv op st) @ l2"
    using Cons.IH [of "complete drv op st"] by blast
  from a b show ?case by simp
qed

lemma grows_Transaction_node:
  "\<exists>post late.
     trace (Transaction_node drv ro builder ecb scb rest c) = trace (before_tick builder rest c) @ post \<and>
     statements (Transaction_node drv ro builder ecb scb rest c) =
       statements (before_tick builder rest c) @ late"
proof -
  let ?b = "before_tick builder rest c"
  obtain p1 l1 where a: "trace (tick ro scb ?b) = trace ?b @ p1"
      "statements (tick ro scb ?b) = statements ?b @ l1"
    using grows_tick [of ro scb ?b] by blast
  let ?t = "(tick ro scb ?b)\<lparr>pending := []\<rparr>"
  obtain p2 l2 where b: "trace (fold (complete drv) (pending (tick ro scb ?b)) ?t) = trace ?t @ p2"
      "statements (fold (complete drv) (pending (tick ro scb ?b)) ?t) = statements ?t @ l2"
    using grows_fold_complete [of drv "pending (tick ro scb ?b)" ?t] by blast
  from a b show ?thesis by (simp add: Transaction_node_def drain_def)
qed

lemma filter_db_all_map: "filter is_db_all (map all_call ss) = map all_call ss"
  by (induction ss) (simp_all add: all_call_def)

lemma no_noted_BuilderReturn: "BuilderReturn \<notin> set (noted f)"
  by (induction f rule: noted.induct) simp_all

lemma no_noted_dispatch: "\<not> list_ex is_dispatch (noted f)"
  by (induction f rule: noted.induct) simp_all

section \<open>Properties of the synchronous variant\<close>

lemma browser_event_steps:
  "(\<forall>ev\<in>set (btrace st). browser_event ev) \<longrightarrow>
     (\<forall>ev\<in>set (btrace (act_browser drv a st)). browser_event ev)"
  "(\<forall>ev\<in>set (btrace st). browser_event ev) \<longrightarrow>
     (\<forall>ev\<in>set (btrace (call_browser drv f st)). browser_event ev)"
proof (induction drv a st and drv f st rule: act_browser_call_browser.induct)
  case (1 drv n st)
  show ?case by (simp add: bemit_def browser_event_def)
next
  case (2 drv s p sc ec st)
  obtain res c' where d: "db_exec drv (bconn st) s (params_default p) = (res, c')"
    by (cases "db_exec drv (bconn st) s (params_default p)") auto
  let ?st1 = "bemit (Resolved s (params_default p) res)
                (bemit (Dispatch (DbExec s (params_default p))) (st\<lparr>bconn := c'\<rparr>))"
  show ?case
  proof
    assume inv: "\<forall>ev\<in>set (btrace st). browser_event ev"
    then have inv1: "\<forall>ev\<in>set (btrace ?st1). browser_event ev"
      by (simp add: bemit_def browser_event_def)
    have inv2: "\<forall>ev\<in>set (btrace (bemit (StmtError e) ?st1)). browser_event ev" for e
      using inv1 by (simp add: bemit_def browser_event_def)
    show "\<forall>ev\<in>set (btrace (act_browser drv (ExecuteSql s p sc ec) st)). browser_event ev"
    proof (cases ec)
      case None
      with inv1 d show ?thesis by (simp add: Let_def split: sum.splits option.splits)
    next
      case (Some g)
      show ?thesis
      proof (cases res)
        case (Inl e)
        from "2.IH"(1) [OF d [symmetric] refl Inl Some] inv2 [of e] d Inl Some
        show ?thesis by simp
      next
        case (Inr result)
        show ?thesis
        proof (cases sc)
          case None
          with inv1 d Inr show ?thesis by simp
        next
          case (Some f)
          from "2.IH"(2) [OF d [symmetric] refl Inr Some \<open>ec = Some g\<close>]
            inv2 [of lastInsertRowid_TypeError] d Inr Some \<open>ec = Some g\<close>
          show ?thesis by simp
        qed
      qed
    qed
  qed
next
  case (3 drv st)
  show ?case by simp
next
  case (4 drv a as st)
  then show ?case by simp
qed

lemma browser_event_Transaction_browser:
  "\<forall>ev\<in>set (btrace (Transaction_browser drv ro builder ecb scb c)). browser_event ev"
  using browser_event_steps(2) [of "\<lparr>bconn = c, btrace = []\<rparr>" drv builder]
  by (simp add: Transaction_browser_def bemit_def browser_event_def)


lemma browser_calls_subseq:
  "\<exists>xs. calls (btrace (act_browser drv a st)) = calls (btrace st) @ xs \<and>
     subseq xs (action_calls a)"
  "\<exists>xs. calls (btrace (call_browser drv f st)) = calls (btrace st) @ xs \<and>
     subseq xs (actions_calls f)"
proof (induction drv a st and drv f st rule: act_browser_call_browser.induct)
  case (1 drv n st)
  show ?case by (simp add: bemit_def calls_append)
next
  case (2 drv s p sc ec st)
  obtain res c' where d: "db_exec drv (bconn st) s (params_default p) = (res, c')"
    by (cases "db_exec drv (bconn st) s (params_default p)") auto
  let ?c = "DbExec s (params_default p)"
  let ?st1 = "bemit (Resolved s (params_default p) res) (bemit (Dispatch ?c) (st\<lparr>bconn := c'\<rparr>))"
  let ?A = "case sc of Some f \<Rightarrow> actions_calls f | None \<Rightarrow> []"
  let ?B = "case ec of Some g \<Rightarrow> actions_calls g | None \<Rightarrow> []"
  have c1: "calls (btrace (bemit (StmtError e) ?st1)) = calls (btrace st) @ [?c]" for e
    by (simp add: bemit_def calls_append)
  have c0: "calls (btrace ?st1) = calls (btrace st) @ [?c]"
    by (simp add: bemit_def calls_append)
  have alone: "subseq [?c] (?c # ?A @ ?B)" by simp
  have quiet: "act_browser drv (ExecuteSql s p sc ec) st = ?st1 \<Longrightarrow> ?case"
    using c0 alone by auto
  have loud: ?case
    if run: "act_browser drv (ExecuteSql s p sc ec) st = call_browser drv g (bemit (StmtError e) ?st1)"
      and ih: "\<exists>xs. calls (btrace (call_browser drv g (bemit (StmtError e) ?st1))) =
                 calls (btrace (bemit (StmtError e) ?st1)) @ xs \<and> subseq xs (actions_calls g)"
      and ec: "ec = Some g"
    for g e
  proof -
    from ih obtain ys where ys:
      "calls (btrace (call_browser drv g (bemit (StmtError e) ?st1))) =
         calls (btrace (bemit (StmtError e) ?st1)) @ ys" "subseq ys (actions_calls g)"
      by blast
    have "subseq ys (?A @ ?B)" using ys(2) ec by (simp add: list_emb_append2)
    then have "subseq (?c # ys) (action_calls (ExecuteSql s p sc ec))" by simp
    moreover have "calls (btrace (act_browser drv (ExecuteSql s p sc ec) st)) =
        calls (btrace st) @ ?c # ys"
      using run ys(1) c1 [of e] by simp
    ultimately show ?thesis by blast
  qed
  show ?case
  proof (cases ec)
    case None
    with d have "act_browser drv (ExecuteSql s p sc ec) st = ?st1"
      by (simp add: Let_def split: sum.splits option.splits)
    then show ?thesis by (rule quiet)
  next
    case (Some g)
    show ?thesis
    proof (cases res)
      case (Inl e)
      from d Inl Some have "act_browser drv (ExecuteSql s p sc ec) st =
          call_browser drv g (bemit (StmtError e) ?st1)" by simp
      then show ?thesis
        using "2.IH"(1) [OF d [symmetric] refl Inl Some] Some by (rule loud)
    next
      case (Inr result)
      show ?thesis
      proof (cases sc)
        case None
        with d Inr have "act_browser drv (ExecuteSql s p sc ec) st = ?st1" by simp
        then show ?thesis by (rule quiet)
      next
        case (Some f)
        from d Inr Some \<open>ec = Some g\<close> have "act_browser drv (ExecuteSql s p sc ec) st =
            call_browser drv g (bemit (StmtError lastInsertRowid_TypeError) ?st1)" by simp
        then show ?thesis
          using "2.IH"(2) [OF d [symmetric] refl Inr Some \<open>ec = Some g\<close>] \<open>ec = Some g\<close>
          by (rule loud)
      qed
    qed
  qed
next
  case (3 drv st)
  show ?case by simp
next
  case (4 drv a as st)
  from "4.IH"(1) obtain xs where xs:
    "calls (btrace (act_browser drv a st)) = calls (btrace st) @ xs" "subseq xs (action_calls a)"
    by blast
  from "4.IH"(2) obtain ys where ys:
    "calls (btrace (call_browser drv as (act_browser drv a st))) =
       calls (btrace (act_browser drv a st)) @ ys" "subseq ys (actions_calls as)"
    by blast
  have "subseq (xs @ ys) (actions_calls (a # as))"
    using xs(2) ys(2) by (simp add: list_emb_append_mono)
  moreover have "calls (btrace (call_browser drv (a # as) st)) = calls (btrace st) @ xs @ ys"
    using xs(1) ys(1) by simp
  ultimately show ?case by blast
qed

lemma calls_Transaction_browser:
  "subseq (calls (btrace (Transaction_browser drv ro builder ecb scb c))) (actions_calls builder)"
  using browser_calls_subseq(2) [of drv builder "\<lparr>bconn = c, btrace = []\<rparr>"]
  by (auto simp: Transaction_browser_def bemit_def calls_append)

lemma calls_set: "c \<in> set (calls tr) \<longleftrightarrow> Dispatch c \<in> set tr"
  by (induction tr rule: calls.induct) auto

section \<open>The claims\<close>

subsection \<open>C1: the transaction-level callback fires once, after the last statement\<close>

text \<open>
  C1 says that the transaction-level success or error callback fires exactly once per
  transaction, and only after the last statement has resolved. At the input below the
  queued variant calls the success callback inside the tick, right after submitting the
  statement and before the statement's completion function runs; the synchronous variant
  never calls it, although a function was supplied.
\<close>

theorem success_callback_before_statement_resolves:
  "trace (readTransaction_node toy_queued [ExecuteSql ''SELECT'' None None None]
      None (Some [Note ''transaction done'']) [] 0) =
     [BuilderReturn, Dispatch (DbAll ''SELECT'' []), TxSuccess, Noted ''transaction done'',
      Resolved ''SELECT'' [] (Inr [[(''n'', VInt 0)]])] \<and>
   btrace (readTransaction_browser toy_sync [ExecuteSql ''SELECT'' None None None]
      None (Some [Note ''transaction done'']) 0) =
     [Dispatch (DbExec ''SELECT'' []), Resolved ''SELECT'' [] (Inr [[(''n'', VInt 0)]]),
      BuilderReturn]"
  by (simp add: node_defs browser_defs common_defs)

subsection \<open>C2: a failing statement stops the transaction\<close>

text \<open>
  C2 says that after the first failing statement no later statement is dispatched, and
  that the transaction-level error callback fires once with that statement's error. At
  the input below the queued variant dispatches the insertion after the failing
  statement (the connection ends with one row) and the supplied transaction-level error
  callback never runs.
\<close>

theorem statements_dispatched_after_failure:
  "trace (transaction_node toy_queued
      [ExecuteSql ''BAD'' None None None, ExecuteSql ''INSERT'' None None None]
      (Some [Note ''transaction failed'']) None [] 0) =
     [BuilderReturn, Dispatch (DbRun ''BEGIN TRANSACTION;''), Dispatch (DbAll ''BAD'' []),
      Dispatch (DbAll ''INSERT'' []), Dispatch (DbRun ''COMMIT;''),
      Resolved ''BAD'' [] (Inl ''SQLITE_ERROR''), Resolved ''INSERT'' [] (Inr [])] \<and>
   conn (transaction_node toy_queued
      [ExecuteSql ''BAD'' None None None, ExecuteSql ''INSERT'' None None None]
      (Some [Note ''transaction failed'']) None [] 0) = 1"
  by (simp add: node_defs common_defs)

subsection \<open>C3: BEGIN and COMMIT\<close>

text \<open>
  C3, in the form the code satisfies. A read-only transaction of the queued variant makes
  no \<^verbatim>\<open>db.run\<close> call, and its calls on the driver are exactly the statements registered
  when the tick runs, in order. A transaction of the synchronous variant, read-only or
  read-write, makes no \<^verbatim>\<open>db.run\<close> call either, and its calls on the driver are, in order,
  among the \<^verbatim>\<open>executeSql\<close> calls written in the caller's functions: neither variant adds
  a BEGIN or a COMMIT of its own there. In the queued variant a read-write transaction
  in which no statement fails dispatches exactly one BEGIN before the first statement
  and exactly one COMMIT after the last. BEGIN and COMMIT go through \<^verbatim>\<open>db.run\<close>, the
  statements through \<^verbatim>\<open>db.all\<close>.
\<close>

theorem begin_commit_bracket:
  "(\<forall>q. DbRun q \<notin> set (calls (trace (readTransaction_node drv builder ecb scb rest c)))) \<and>
   calls (trace (readTransaction_node drv builder ecb scb rest c)) =
     map all_call (statements (before_tick builder rest c)) \<and>
   (\<forall>q. DbRun q \<notin> set (calls (btrace (Transaction_browser sdrv ro builder' ecb' scb' c')))) \<and>
   subseq (calls (btrace (Transaction_browser sdrv ro builder' ecb' scb' c')))
     (actions_calls builder') \<and>
   (\<not> list_ex is_failure (trace (transaction_node drv builder ecb scb rest c)) \<longrightarrow>
      calls (trace (transaction_node drv builder ecb scb rest c)) =
        DbRun ''BEGIN TRANSACTION;'' # map all_call (statements (before_tick builder rest c))
          @ [DbRun ''COMMIT;''])"
proof -
  have n: "DbRun q \<notin> set (calls (trace (readTransaction_node drv builder ecb scb rest c)))" for q
    by (auto simp: readTransaction_node_def calls_Transaction_node all_call_def)
  have n': "calls (trace (readTransaction_node drv builder ecb scb rest c)) =
      map all_call (statements (before_tick builder rest c))"
    by (simp add: readTransaction_node_def calls_Transaction_node)
  have "\<not> browser_event (Dispatch (DbRun q))" for q by (simp add: browser_event_def)
  then have b: "DbRun q \<notin> set (calls (btrace (Transaction_browser sdrv ro builder' ecb' scb' c')))" for q
    using browser_event_Transaction_browser [of sdrv ro builder' ecb' scb' c']
    by (auto simp: calls_set)
  note b' = calls_Transaction_browser [of sdrv ro builder' ecb' scb' c']
  from n n' b b' show ?thesis by (simp add: transaction_node_def calls_Transaction_node)
qed

text \<open>
  C3, an instance: two statements that succeed, a read-only transaction, and a
  transaction of the synchronous variant with nothing to run.
\<close>

theorem begin_commit_bracket_witness:
  "\<not> list_ex is_failure (trace (transaction_node toy_queued
       [ExecuteSql ''INSERT'' None None None, ExecuteSql ''SELECT'' None None None] None None [] 0)) \<and>
   calls (trace (transaction_node toy_queued
       [ExecuteSql ''INSERT'' None None None, ExecuteSql ''SELECT'' None None None] None None [] 0)) =
     [DbRun ''BEGIN TRANSACTION;'', DbAll ''INSERT'' [], DbAll ''SELECT'' [], DbRun ''COMMIT;''] \<and>
   calls (trace (readTransaction_node toy_queued [ExecuteSql ''SELECT'' None None None] None None [] 0)) =
     [DbAll ''SELECT'' []] \<and>
   calls (btrace (Transaction_browser toy_sync False [] None None 0)) = []"
  using begin_commit_bracket [of toy_queued
      "[ExecuteSql ''INSERT'' None None None, ExecuteSql ''SELECT'' None None None]" None None "[]" 0
      toy_sync False "[]" None None 0]
    begin_commit_bracket [of toy_queued
      "[ExecuteSql ''SELECT'' None None None]" None None "[]" 0
      toy_sync False "[]" None None 0]
  by (simp add: node_defs common_defs all_call_def)

text \<open>
  C3 as it was stated fails in the synchronous variant: a read-write transaction whose
  only statement succeeds reaches the driver without BEGIN or COMMIT.
\<close>

theorem browser_readwrite_without_begin_commit:
  "\<not> list_ex is_failure
       (btrace (transaction_browser toy_sync [ExecuteSql ''INSERT'' None None None] None None 0)) \<and>
   calls (btrace (transaction_browser toy_sync [ExecuteSql ''INSERT'' None None None] None None 0)) =
     [DbExec ''INSERT'' []]"
  by (simp add: browser_defs common_defs)

subsection \<open>C4: no COMMIT after a failure\<close>

text \<open>
  C4 says that a read-write transaction in which a statement fails never dispatches
  COMMIT. At the input below the only statement fails and the queued variant has already
  submitted COMMIT: \<^verbatim>\<open>errorOccurred\<close> is still false when the tick tests it.
\<close>

theorem commit_dispatched_despite_failure:
  "list_ex is_failure
     (trace (transaction_node toy_queued [ExecuteSql ''BAD'' None None None] None None [] 0)) \<and>
   calls (trace (transaction_node toy_queued [ExecuteSql ''BAD'' None None None] None None [] 0)) =
     [DbRun ''BEGIN TRANSACTION;'', DbAll ''BAD'' [], DbRun ''COMMIT;'']"
  by (simp add: node_defs common_defs)

subsection \<open>C5: the transaction-level error callback is never invoked\<close>

text \<open>
  C5: in both variants no code path invokes the \<^verbatim>\<open>errorCallback\<close> given to
  \<^verbatim>\<open>transaction\<close> or \<^verbatim>\<open>readTransaction\<close>: no trace holds a transaction-level error event,
  and the whole run is the same whatever was passed as \<^verbatim>\<open>errorCallback\<close>.
\<close>

theorem transaction_errorCallback_never_invoked:
  "(\<forall>e. TxError e \<notin> set (trace (Transaction_node drv ro builder ecb scb rest c))) \<and>
   (\<forall>e. TxError e \<notin> set (btrace (Transaction_browser sdrv ro' builder' ecb scb' c'))) \<and>
   Transaction_node drv ro builder ecb scb rest c = Transaction_node drv ro builder ecb' scb rest c \<and>
   Transaction_browser sdrv ro' builder' ecb scb' c' =
     Transaction_browser sdrv ro' builder' ecb' scb' c'"
proof -
  have "\<not> node_event (TxError e)" for e by (simp add: node_event_def)
  then have n: "\<forall>e. TxError e \<notin> set (trace (Transaction_node drv ro builder ecb scb rest c))"
    using node_event_Transaction_node [of drv ro builder ecb scb rest c] by blast
  have "\<not> browser_event (TxError e)" for e by (simp add: browser_event_def)
  then have b: "\<forall>e. TxError e \<notin> set (btrace (Transaction_browser sdrv ro' builder' ecb scb' c'))"
    using browser_event_Transaction_browser [of sdrv ro' builder' ecb scb' c'] by blast
  from n b show ?thesis by (simp add: Transaction_node_def Transaction_browser_def)
qed

text \<open>
  C5, an instance: the statement fails, its own error callback runs, and the
  transaction-level one leaves no mark.
\<close>

theorem transaction_errorCallback_never_invoked_witness:
  "trace (Transaction_node toy_queued False
      [ExecuteSql ''BAD'' None None (Some [Note ''statement failed''])]
      (Some [Note ''transaction failed'']) None [] 0) =
     [BuilderReturn, Dispatch (DbRun ''BEGIN TRANSACTION;''), Dispatch (DbAll ''BAD'' []),
      Dispatch (DbRun ''COMMIT;''), Resolved ''BAD'' [] (Inl ''SQLITE_ERROR''),
      StmtError ''SQLITE_ERROR'', Noted ''statement failed''] \<and>
   btrace (Transaction_browser toy_sync False
      [ExecuteSql ''BAD'' None None (Some [Note ''statement failed''])]
      (Some [Note ''transaction failed'']) None 0) =
     [Dispatch (DbExec ''BAD'' []), Resolved ''BAD'' [] (Inl ''SQLITE_ERROR''),
      StmtError ''SQLITE_ERROR'', Noted ''statement failed'', BuilderReturn]"
  using transaction_errorCallback_never_invoked [of toy_queued False
      "[ExecuteSql ''BAD'' None None (Some [Note ''statement failed''])]"
      "Some [Note ''transaction failed'']" None "[]" 0 toy_sync False
      "[ExecuteSql ''BAD'' None None (Some [Note ''statement failed''])]" None 0 None]
  by (simp add: node_defs browser_defs common_defs)

subsection \<open>C6: registration before execution\<close>

text \<open>
  C6, in the form the code satisfies: in the queued variant nothing is dispatched to the
  driver before the builder function has returned.
\<close>

theorem node_no_dispatch_before_builder_returns:
  "BuilderReturn \<in> set (trace (Transaction_node drv ro builder ecb scb rest c)) \<and>
   \<not> list_ex is_dispatch (before_return (trace (Transaction_node drv ro builder ecb scb rest c)))"
proof -
  obtain post where "trace (Transaction_node drv ro builder ecb scb rest c) =
      (noted builder @ BuilderReturn # noted rest) @ post"
    using grows_Transaction_node [of drv ro builder ecb scb rest c]
    by (auto simp: trace_before_tick)
  then have t: "trace (Transaction_node drv ro builder ecb scb rest c) =
      noted builder @ BuilderReturn # (noted rest @ post)" by simp
  have "takeWhile (\<lambda>ev. ev \<noteq> BuilderReturn) (noted builder @ BuilderReturn # (noted rest @ post)) =
      noted builder"
  proof -
    have "\<forall>ev\<in>set (noted builder). ev \<noteq> BuilderReturn"
      using no_noted_BuilderReturn [of builder] by blast
    then show ?thesis by simp
  qed
  with t no_noted_dispatch [of builder] show ?thesis by (simp add: before_return_def)
qed

text \<open>
  C6, an instance in the queued variant.
\<close>

theorem node_no_dispatch_before_builder_returns_witness:
  "before_return
     (trace (transaction_node toy_queued
        [Note ''building'', ExecuteSql ''INSERT'' None None None] None None [] 0)) =
     [Noted ''building''] \<and>
   trace (transaction_node toy_queued
        [Note ''building'', ExecuteSql ''INSERT'' None None None] None None [] 0) =
     [Noted ''building'', BuilderReturn, Dispatch (DbRun ''BEGIN TRANSACTION;''),
      Dispatch (DbAll ''INSERT'' []), Dispatch (DbRun ''COMMIT;''), Resolved ''INSERT'' [] (Inr [])]"
  using node_no_dispatch_before_builder_returns [of toy_queued False
      "[Note ''building'', ExecuteSql ''INSERT'' None None None]" None None "[]" 0]
  by (simp add: node_defs common_defs before_return_def)

text \<open>
  C6 as it was stated fails in the synchronous variant: in this run the statement is
  dispatched and resolved before the builder returns.
\<close>

theorem browser_dispatches_inside_builder:
  "btrace (transaction_browser toy_sync [ExecuteSql ''SELECT'' None None None] None None 0) =
     [Dispatch (DbExec ''SELECT'' []), Resolved ''SELECT'' [] (Inr [[(''n'', VInt 0)]]),
      BuilderReturn] \<and>
   list_ex is_dispatch
     (before_return
        (btrace (transaction_browser toy_sync [ExecuteSql ''SELECT'' None None None] None None 0)))"
  by (simp add: browser_defs common_defs before_return_def)

subsection \<open>C7: registration order, and success after the last statement\<close>

text \<open>
  C7 says that without errors the statements run in registration order and the
  transaction success callback fires strictly after the last one resolves. At the input
  below the queued variant keeps the order, but calls the success callback before either
  statement has resolved.
\<close>

theorem success_callback_before_last_statement:
  "trace (transaction_node toy_queued
      [ExecuteSql ''INSERT'' None None None, ExecuteSql ''SELECT'' None None None]
      None (Some [Note ''committed'']) [] 0) =
     [BuilderReturn, Dispatch (DbRun ''BEGIN TRANSACTION;''), Dispatch (DbAll ''INSERT'' []),
      Dispatch (DbAll ''SELECT'' []), Dispatch (DbRun ''COMMIT;''), TxSuccess, Noted ''committed'',
      Resolved ''INSERT'' [] (Inr []), Resolved ''SELECT'' [] (Inr [[(''n'', VInt 1)]])]"
  by (simp add: node_defs common_defs)

subsection \<open>C8: the shape of a result set\<close>



subsection \<open>C9: the creation callback\<close>

text \<open>
  C9, in the form the code satisfies: in the synchronous variant, when the connection
  opens, a supplied creation callback is invoked exactly once, with the raw connection,
  before \<^verbatim>\<open>openDatabase\<close> returns its handle. In the queued variant
  it is invoked from the driver's open-completion function, after
  \<^verbatim>\<open>openDatabase\<close> has returned: once, with the raw connection,
  when the open succeeded, and not at all when it failed.
\<close>

theorem creation_callback_invocation:
  "(open_db name = Inr db \<longrightarrow>
      openDatabase_browser open_db name (Some f) = Inr (f db, [CreationCallback db, ReturnHandle])) \<and>
   (open_db name = Inr db \<longrightarrow>
      openDatabase_node open_db name (Some f) = (Some (f db), [ReturnHandle, CreationCallback db])) \<and>
   (open_db name = Inl e \<longrightarrow>
      \<not> list_ex is_creation (snd (openDatabase_node open_db name (Some f))))"
  by (simp add: openDatabase_browser_def openDatabase_node_def)

text \<open>
  C9, an instance: a database that opens and one that does not.
\<close>

theorem creation_callback_invocation_witness:
  "toy_open ''test.db'' = Inr 0 \<and>
   toy_open ''/no/such/dir/test.db'' = Inl ''SQLITE_CANTOPEN'' \<and>
   openDatabase_browser toy_open ''test.db'' (Some ((+) 1)) =
     Inr (1, [CreationCallback 0, ReturnHandle]) \<and>
   openDatabase_node toy_open ''test.db'' (Some ((+) 1)) =
     (Some 1, [ReturnHandle, CreationCallback 0]) \<and>
   \<not> list_ex is_creation (snd (openDatabase_node toy_open ''/no/such/dir/test.db'' (Some ((+) 1))))"
  using creation_callback_invocation [of toy_open "''test.db''" 0 "(+) 1"]
    creation_callback_invocation [of toy_open "''/no/such/dir/test.db''" _ "(+) 1" "''SQLITE_CANTOPEN''"]
  by (simp add: toy_open_def)

text \<open>
  C9 as it was stated fails in the queued variant: the handle is returned first, the
  callback runs afterwards.
\<close>

theorem node_creation_callback_after_return:
  "snd (openDatabase_node toy_open ''test.db'' (Some id)) = [ReturnHandle, CreationCallback 0]"
  by (simp add: openDatabase_node_def toy_open_def)

subsection \<open>C10: statements registered after the tick\<close>

text \<open>
  C10: in the queued variant the statements handed to \<^verbatim>\<open>db.all\<close> are exactly the
  \<^verbatim>\<open>statements\<close> array as it stands when the tick runs, in order; whatever is pushed
  afterwards (from a statement callback or from the transaction success callback) stays
  at the end of the array and is never dispatched.
\<close>

theorem late_statements_never_dispatched:
  "filter is_db_all (calls (trace (Transaction_node drv ro builder ecb scb rest c))) =
     map all_call (statements (before_tick builder rest c)) \<and>
   (\<exists>late. statements (Transaction_node drv ro builder ecb scb rest c) =
      statements (before_tick builder rest c) @ late)"
  using grows_Transaction_node [of drv ro builder ecb scb rest c]
  by (auto simp: calls_Transaction_node filter_db_all_map)

text \<open>
  C10, an instance: the success callback of the selection registers an insertion, which
  is in the array at the end and was never dispatched.
\<close>

theorem late_statements_never_dispatched_witness:
  "filter is_db_all (calls (trace (Transaction_node toy_queued False
      [ExecuteSql ''SELECT'' None (Some [ExecuteSql ''INSERT'' None None None]) None]
      None None [] 0))) = [DbAll ''SELECT'' []] \<and>
   map sql (statements (Transaction_node toy_queued False
      [ExecuteSql ''SELECT'' None (Some [ExecuteSql ''INSERT'' None None None]) None]
      None None [] 0)) = [''SELECT'', ''INSERT'']"
  using late_statements_never_dispatched [of toy_queued False
      "[ExecuteSql ''SELECT'' None (Some [ExecuteSql ''INSERT'' None None None]) None]"
      None None "[]" 0]
  by (simp add: node_defs common_defs all_call_def)

end
